theory Spec2Isabelle
  imports Main "HOL-Library.Multiset" "HOL-Library.Option_ord"
begin

section \<open>Strings as Python uses them here\<close>

text \<open>
  Exception messages, links and titles are modelled as \<open>string\<close> (a list of 8-bit
  characters). \<open>str.lower()\<close> is modelled on the ASCII letters, which is what the
  four retry signals are written in.
\<close>

definition char_lower :: "char \<Rightarrow> char" where
  "char_lower c =
     (let n = (of_char c :: nat) in if 65 \<le> n \<and> n \<le> 90 then char_of (n + 32) else c)"

definition lower :: "string \<Rightarrow> string" where
  "lower s = map char_lower s"

text \<open>\<open>s.startswith(p)\<close>\<close>

fun startswith :: "string \<Rightarrow> string \<Rightarrow> bool" where
  "startswith s [] = True"
| "startswith [] (p # ps) = False"
| "startswith (c # cs) (p # ps) = (c = p \<and> startswith cs ps)"

text \<open>\<open>sub in s\<close> on strings: \<open>sub\<close> occurs in \<open>s\<close> as a contiguous run.\<close>

fun contains :: "string \<Rightarrow> string \<Rightarrow> bool" where
  "contains [] sub = (sub = [])"
| "contains (c # cs) sub = (startswith (c # cs) sub \<or> contains cs sub)"

section \<open>errors.py: the retry wrappers\<close>

text \<open>
  The wrapped callable is given by two things. \<open>func i\<close> is the outcome of its
  invocation number \<open>i\<close> (counted from 0), either an exception with its \<open>str(e)\<close>
  or a returned value. \<open>func_name\<close> is its \<open>__name__\<close> attribute, which both log
  lines of the handler read: \<open>Some name\<close> for a function, \<open>None\<close> for a callable
  that has none (a \<open>functools.partial\<close>, an object with \<open>__call__\<close>, a mock), where
  reading it raises \<open>AttributeError\<close>.
\<close>

datatype 'a outcome = Raises string | Returns 'a

text \<open>
  Both \<open>raise LLMError(...)\<close> statements of a wrapper raise the same exception class;
  the model records which of the two statements raised: the one inside the loop
  (\<open>raise LLMError(str(e)) from e\<close>) or the one after it
  (\<open>raise LLMError(f"Max retries ({max_retries}) exceeded")\<close>). \<open>AttributeError\<close>
  is the exception that leaves the handler when \<open>func.__name__\<close> is not there.
\<close>

datatype raise_site = InLoop | AfterLoop

datatype 'a exit = Returned 'a | LLMError raise_site string | AttributeError

text \<open>
  What one call of a wrapper did: how it left, how many times it invoked the callable,
  and the delays it slept, in order (\<open>time.sleep\<close> or \<open>asyncio.sleep\<close>; the delays
  \<open>1.0 * 2**attempt\<close> are whole numbers of seconds).
\<close>

record 'a run =
  exit :: "'a exit"
  calls :: nat
  slept :: "nat list"

definition max_retries :: nat where
  "max_retries = 3"

definition retry_delay :: nat where
  "retry_delay = 1"

text \<open>\<open>any(x in error_str for x in ["rate limit", "timeout", "503", "429"])\<close> with
  \<open>error_str = str(e).lower()\<close>.\<close>

definition is_retryable :: "string \<Rightarrow> bool" where
  "is_retryable e =
     (let error_str = lower e
      in list_ex (\<lambda>x. contains error_str x) [''rate limit'', ''timeout'', ''503'', ''429''])"



text \<open>The body of \<open>handle_api_error_async\<close>'s \<open>wrapper\<close>, written out again as the
  source does.\<close>

function wrapper_async ::
  "string option \<Rightarrow> (nat \<Rightarrow> 'a outcome) \<Rightarrow> nat \<Rightarrow> nat list \<Rightarrow> 'a run" where
  "wrapper_async func_name func attempt zs =
     (if attempt < max_retries then
        (case func attempt of
           Returns v \<Rightarrow> \<lparr>exit = Returned v, calls = attempt + 1, slept = zs\<rparr>
         | Raises e \<Rightarrow>
             if is_retryable e \<and> attempt < max_retries - 1
             then (case func_name of
                     None \<Rightarrow> \<lparr>exit = AttributeError, calls = attempt + 1, slept = zs\<rparr>
                   | Some name \<Rightarrow>
                       wrapper_async func_name func (attempt + 1)
                         (zs @ [retry_delay * 2 ^ attempt]))
             else (case func_name of
                     None \<Rightarrow> \<lparr>exit = AttributeError, calls = attempt + 1, slept = zs\<rparr>
                   | Some name \<Rightarrow>
                       \<lparr>exit = LLMError InLoop e, calls = attempt + 1, slept = zs\<rparr>))
      else \<lparr>exit = LLMError AfterLoop ''Max retries (3) exceeded'',
             calls = attempt, slept = zs\<rparr>)"
  by pat_completeness auto
termination
  by (relation "measure (\<lambda>(func_name, func, attempt, zs). max_retries - attempt)") auto



section \<open>database.py: the articles table\<close>

text \<open>
  A row of \<open>articles\<close>. \<open>id\<close> is the rowid (\<open>INTEGER PRIMARY KEY
  AUTOINCREMENT\<close>), \<open>link\<close> is \<open>UNIQUE NOT NULL\<close>, \<open>content\<close>, \<open>pub_date\<close>
  and \<open>lightrag_id\<close> are nullable (\<open>None\<close> is SQL \<open>NULL\<close>). Timestamps are
  integers; \<open>fetched_at\<close> plays no part in what follows and is left out.
\<close>

record article =
  row_id :: int
  row_feed_id :: int
  row_title :: string
  row_content :: "string option"
  row_link :: string
  row_pub_date :: "int option"
  row_lightrag_id :: "string option"

text \<open>
  The database behind a connection: the rows of \<open>articles\<close> in rowid order, and
  \<open>article_seq\<close>, the largest rowid the table has ever held (SQLite keeps it in
  \<open>sqlite_sequence\<close> for an \<open>AUTOINCREMENT\<close> column). Every function below commits
  before it returns, so the connection and the stored state are one value.
\<close>

record db =
  articles :: "article list"
  article_seq :: int

text \<open>\<open>init_db\<close> on a fresh file: the empty table.\<close>

definition init_db :: db where
  "init_db = \<lparr>articles = [], article_seq = 0\<rparr>"

text \<open>
  \<open>add_article\<close>: the \<open>INSERT\<close> raises \<open>IntegrityError\<close> when a row with the same
  \<open>link\<close> exists (the \<open>UNIQUE\<close> constraint; SQLite does not check the foreign key
  unless asked to), and the function then returns \<open>None\<close>. Otherwise the row gets a
  rowid one above the largest ever used, with \<open>lightrag_id\<close> \<open>NULL\<close>, and
  \<open>cursor.lastrowid\<close> is returned.
\<close>

definition add_article ::
  "db \<Rightarrow> int \<Rightarrow> string \<Rightarrow> string option \<Rightarrow> string \<Rightarrow> int option \<Rightarrow> int option \<times> db" where
  "add_article conn feed_id title content link pub_date =
     (if list_ex (\<lambda>r. row_link r = link) (articles conn) then (None, conn)
      else
        (let lastrowid = fold max (map row_id (articles conn)) (article_seq conn) + 1
         in (Some lastrowid,
             conn\<lparr>articles := articles conn @
                    [\<lparr>row_id = lastrowid, row_feed_id = feed_id, row_title = title,
                      row_content = content, row_link = link, row_pub_date = pub_date,
                      row_lightrag_id = None\<rparr>],
                  article_seq := lastrowid\<rparr>)))"

text \<open>\<open>update_article_lightrag_id\<close>:
  \<open>UPDATE articles SET lightrag_id = ? WHERE id = ?\<close>.\<close>

definition update_article_lightrag_id :: "db \<Rightarrow> int \<Rightarrow> string \<Rightarrow> db" where
  "update_article_lightrag_id conn article_id lightrag_id =
     conn\<lparr>articles :=
       map (\<lambda>r. if row_id r = article_id then r\<lparr>row_lightrag_id := Some lightrag_id\<rparr> else r)
         (articles conn)\<rparr>"

text \<open>\<open>delete_feed\<close>, as far as the articles table goes:
  \<open>DELETE FROM articles WHERE feed_id = ?\<close>.\<close>

definition delete_feed :: "db \<Rightarrow> int \<Rightarrow> db" where
  "delete_feed conn feed_id =
     conn\<lparr>articles := filter (\<lambda>r. row_feed_id r \<noteq> feed_id) (articles conn)\<rparr>"

section \<open>ingestion.py\<close>

text \<open>\<open>SELECT COUNT(*) FROM articles WHERE lightrag_id IS NULL\<close> and
  \<open>... IS NOT NULL\<close>.\<close>

definition get_pending_count :: "db \<Rightarrow> nat" where
  "get_pending_count conn = length (filter (\<lambda>r. row_lightrag_id r = None) (articles conn))"

definition get_ingested_count :: "db \<Rightarrow> nat" where
  "get_ingested_count conn = length (filter (\<lambda>r. row_lightrag_id r \<noteq> None) (articles conn))"

record IngestionResult =
  res_article_id :: int
  res_title :: string
  res_success :: bool
  res_lightrag_id :: "string option"
  res_error :: "string option"

text \<open>
  The retrieval engine (\<open>rag\<close>): what \<open>rag.ainsert(doc_text, ids=..., file_paths=...)\<close>
  does on its call number \<open>n\<close> (counted from 0 over the engine's life) with these
  arguments: it returns, or raises an exception with the given \<open>str(e)\<close>.
\<close>

type_synonym engine = "nat \<Rightarrow> string \<Rightarrow> string list \<Rightarrow> string list \<Rightarrow> unit outcome"

text \<open>\<open>f"Title: {title}\n\nURL: {link}\n\n{content or ''}"\<close>\<close>

definition doc_text :: "string \<Rightarrow> string \<Rightarrow> string option \<Rightarrow> string" where
  "doc_text title link content =
     ''Title: '' @ title @ [CHR 0x0A, CHR 0x0A] @ ''URL: '' @ link @ [CHR 0x0A, CHR 0x0A] @
     (case content of None \<Rightarrow> [] | Some c \<Rightarrow> c)"

text \<open>
  \<open>ingest_article_async\<close>. \<open>md5_hexdigest\<close> stands for
  \<open>hashlib.md5(link.encode()).hexdigest()\<close>, a library function taken as a parameter
  (\<open>_generate_doc_id\<close> is exactly this call). \<open>n\<close> is the number of calls the engine
  has had; the function returns the result and the engine's new call count.
\<close>

definition ingest_article_async ::
  "(string \<Rightarrow> string) \<Rightarrow> engine \<Rightarrow> nat \<Rightarrow> int \<Rightarrow> string \<Rightarrow> string option \<Rightarrow> string \<Rightarrow>
     IngestionResult \<times> nat" where
  "ingest_article_async md5_hexdigest rag n article_id title content link =
     (let doc_id = md5_hexdigest link
      in case rag n (doc_text title link content) [doc_id] [link] of
           Returns u \<Rightarrow>
             (\<lparr>res_article_id = article_id, res_title = title, res_success = True,
               res_lightrag_id = Some doc_id, res_error = None\<rparr>, n + 1)
         | Raises e \<Rightarrow>
             (\<lparr>res_article_id = article_id, res_title = title, res_success = False,
               res_lightrag_id = None, res_error = Some e\<rparr>, n + 1))"

text \<open>
  The query of \<open>ingest_pending_articles_async\<close>: the rows with \<open>lightrag_id IS
  NULL\<close>, \<open>ORDER BY pub_date DESC\<close> (SQLite sorts \<open>NULL\<close> below every value, so
  undated rows come last; SQL leaves the order of equal dates open, the model fixes one),
  and \<open>LIMIT\<close> only when \<open>limit\<close> is truthy (neither \<open>None\<close> nor 0); a negative
  \<open>LIMIT\<close> is no limit in SQLite.
\<close>

definition select_pending :: "db \<Rightarrow> int option \<Rightarrow> article list" where
  "select_pending conn limit =
     (let rows = rev (sort_key row_pub_date
                   (filter (\<lambda>r. row_lightrag_id r = None) (articles conn)))
      in case limit of
           None \<Rightarrow> rows
         | Some l \<Rightarrow> if l = 0 \<or> l < 0 then rows else take (nat l) rows)"

text \<open>
  The \<open>for article in articles\<close> loop of \<open>ingest_pending_articles_async\<close>: submit
  the article, write its \<open>lightrag_id\<close> when \<open>result.success and
  result.lightrag_id\<close> (a non-empty string), yield the result, go on.
\<close>

fun ingest_loop ::
  "(string \<Rightarrow> string) \<Rightarrow> engine \<Rightarrow> article list \<Rightarrow> nat \<Rightarrow> db \<Rightarrow>
     IngestionResult list \<times> nat \<times> db" where
  "ingest_loop md5_hexdigest rag [] n conn = ([], n, conn)"
| "ingest_loop md5_hexdigest rag (article # rest) n conn =
     (let (result, n') =
            ingest_article_async md5_hexdigest rag n (row_id article) (row_title article)
              (Some (case row_content article of None \<Rightarrow> [] | Some c \<Rightarrow> c))
              (row_link article);
          conn' =
            (case res_lightrag_id result of
               Some i \<Rightarrow>
                 if res_success result \<and> i \<noteq> []
                 then update_article_lightrag_id conn (row_id article) i
                 else conn
             | None \<Rightarrow> conn);
          (results, n'', conn'') = ingest_loop md5_hexdigest rag rest n' conn'
      in (result # results, n'', conn''))"

text \<open>
  \<open>ingest_pending_articles_async\<close> is an async generator: its body runs only as far
  as its consumer draws results. \<open>k\<close> is the number of results drawn; the value is the
  results yielded, the engine's call count and the database at that point (any \<open>k\<close>
  from the number of selected rows on runs the generator to its end).
\<close>

definition ingest_pending_articles_async ::
  "(string \<Rightarrow> string) \<Rightarrow> engine \<Rightarrow> nat \<Rightarrow> db \<Rightarrow> int option \<Rightarrow> nat \<Rightarrow>
     IngestionResult list \<times> nat \<times> db" where
  "ingest_pending_articles_async md5_hexdigest rag n conn limit k =
     ingest_loop md5_hexdigest rag (take k (select_pending conn limit)) n conn"

section \<open>feed_manager.py\<close>

text \<open>
  A feed entry as \<open>extract_content\<close>, \<open>parse_pub_date\<close> and \<open>fetch_feed\<close> read
  it: a dictionary whose keys may be missing (\<open>None\<close>). An item of \<open>entry["content"]\<close>
  is a dictionary with optional keys \<open>type\<close> and \<open>value\<close>. A parsed time is the
  tuple feedparser gives (\<open>time.struct_time\<close>).
\<close>

record content_item =
  c_type :: "string option"
  c_value :: "string option"

type_synonym struct_time = "int list"

record entry =
  e_title :: "string option"
  e_link :: "string option"
  e_content :: "content_item list option"
  e_summary :: "string option"
  e_description :: "string option"
  e_published_parsed :: "struct_time option"
  e_updated_parsed :: "struct_time option"

text \<open>The test of the loop in \<open>extract_content\<close>:
  \<open>content.get("type", "").startswith("text/html") or content.get("value")\<close>.\<close>

definition content_matches :: "content_item \<Rightarrow> bool" where
  "content_matches content =
     (startswith (case c_type content of None \<Rightarrow> [] | Some t \<Rightarrow> t) ''text/html'' \<or>
      (case c_value content of None \<Rightarrow> False | Some v \<Rightarrow> v \<noteq> []))"

text \<open>The \<open>for content in entry["content"]\<close> loop: \<open>Some v\<close> when it returns
  \<open>content.get("value")\<close> (itself possibly \<open>None\<close>), \<open>None\<close> when it falls through.\<close>

fun content_loop :: "content_item list \<Rightarrow> string option option" where
  "content_loop [] = None"
| "content_loop (content # rest) =
     (if content_matches content then Some (c_value content) else content_loop rest)"

definition extract_content :: "entry \<Rightarrow> string option" where
  "extract_content entry =
     (case (case e_content entry of
              Some cs \<Rightarrow> if cs \<noteq> [] then content_loop cs else None
            | None \<Rightarrow> None) of
        Some v \<Rightarrow> v
      | None \<Rightarrow>
          (case e_summary entry of
             Some s \<Rightarrow> Some s
           | None \<Rightarrow>
               (case e_description entry of
                  Some d \<Rightarrow> Some d
                | None \<Rightarrow> None)))"

text \<open>
  \<open>parse_pub_date\<close>. \<open>mktime\<close> stands for
  \<open>datetime.fromtimestamp(mktime(parsed))\<close>, library code taken as a parameter: the
  timestamp, or \<open>None\<close> where it raises \<open>ValueError\<close> or \<open>OverflowError\<close>.
\<close>

definition parse_pub_date :: "(struct_time \<Rightarrow> int option) \<Rightarrow> entry \<Rightarrow> int option" where
  "parse_pub_date mktime entry =
     (let parsed = (case e_published_parsed entry of
                      Some p \<Rightarrow> if p \<noteq> [] then Some p else e_updated_parsed entry
                    | None \<Rightarrow> e_updated_parsed entry)
      in case parsed of
           Some p \<Rightarrow> if p \<noteq> [] then mktime p else None
         | None \<Rightarrow> None)"

record Article =
  art_title :: string
  art_content :: "string option"
  art_link :: string
  art_pub_date :: "int option"
  art_feed_url :: string

text \<open>
  What \<open>feedparser.parse(feed_url)\<close> gave: \<open>bozo\<close>, \<open>bozo_exception\<close> (its
  \<open>str\<close>; \<open>None\<close> when the attribute is not there), \<open>feed.get("title")\<close> and the
  entries. \<open>Inl e\<close> is a call that raised, with \<open>str(e)\<close>.
\<close>

record parsed_feed =
  bozo :: bool
  bozo_exception :: "string option"
  feed_title :: "string option"
  entries :: "entry list"

text \<open>\<open>xs[:n]\<close> for an integer \<open>n\<close>; a negative \<open>n\<close> counts from the end.\<close>

definition slice_to :: "'a list \<Rightarrow> int \<Rightarrow> 'a list" where
  "slice_to xs n = (if 0 \<le> n then take (nat n) xs else take (length xs - nat (- n)) xs)"

text \<open>The \<open>for entry in feed.entries[:max_articles]\<close> loop of \<open>fetch_feed\<close>.\<close>

fun articles_of :: "(struct_time \<Rightarrow> int option) \<Rightarrow> string \<Rightarrow> entry list \<Rightarrow> Article list" where
  "articles_of mktime feed_url [] = []"
| "articles_of mktime feed_url (entry # rest) =
     (case e_link entry of
        None \<Rightarrow> articles_of mktime feed_url rest
      | Some link \<Rightarrow>
          if link = [] then articles_of mktime feed_url rest
          else \<lparr>art_title = (case e_title entry of None \<Rightarrow> ''Untitled'' | Some t \<Rightarrow> t),
                art_content = extract_content entry,
                art_link = link,
                art_pub_date = parse_pub_date mktime entry,
                art_feed_url = feed_url\<rparr> # articles_of mktime feed_url rest)"

text \<open>
  \<open>fetch_feed\<close>, returning \<open>(feed_title, articles, error_message)\<close>. Reading
  \<open>feed.bozo_exception\<close> when it is not there raises \<open>AttributeError\<close> inside the
  \<open>try\<close> (with feedparser's message), which the \<open>except\<close> turns into the error
  result.
\<close>

definition fetch_feed ::
  "(struct_time \<Rightarrow> int option) \<Rightarrow> string \<Rightarrow> int \<Rightarrow> string + parsed_feed \<Rightarrow>
     string option \<times> Article list \<times> string option" where
  "fetch_feed mktime feed_url max_articles parsed =
     (case parsed of
        Inl e \<Rightarrow> (None, [], Some (''Error fetching '' @ feed_url @ '': '' @ e))
      | Inr feed \<Rightarrow>
          (let usable =
                 (feed_title feed,
                  articles_of mktime feed_url (slice_to (entries feed) max_articles),
                  None)
           in if bozo feed then
                (case bozo_exception feed of
                   None \<Rightarrow>
                     (None, [],
                      Some (''Error fetching '' @ feed_url @ '': '' @
                            ''object has no attribute '' @ [CHR 0x27] @
                            ''bozo_exception'' @ [CHR 0x27]))
                 | Some error_msg \<Rightarrow>
                     if entries feed = [] then (None, [], Some error_msg) else usable)
              else usable))"

section \<open>cost_tracker.py\<close>

text \<open>
  Costs are Python floats. Their arithmetic is taken as a parameter, so that what is
  proved holds for IEEE doubles as for any other reading: the value of a literal, the
  float of an integer (what \<open>0 + x\<close> does to the \<open>0\<close>), \<open>int / int\<close>, and float
  multiplication and addition.
\<close>

record 'f float_ops =
  lit :: "string \<Rightarrow> 'f"
  float_of_int :: "int \<Rightarrow> 'f"
  truediv :: "int \<Rightarrow> int \<Rightarrow> 'f"
  fmul :: "'f \<Rightarrow> 'f \<Rightarrow> 'f"
  fadd :: "'f \<Rightarrow> 'f \<Rightarrow> 'f"

record 'f APICall =
  timestamp :: string
  operation :: string
  model :: string
  input_tokens :: int
  output_tokens :: int
  cost_usd :: "'f"

record 'f CostSummary =
  total_calls :: int
  total_input_tokens :: int
  total_output_tokens :: int
  total_cost_usd :: "'f"
  by_operation :: "string \<rightharpoonup> 'f"
  by_model :: "string \<rightharpoonup> 'f"

text \<open>\<open>PRICING\<close>: per model the literals of the input and the output price.\<close>

definition PRICING :: "(string \<times> string \<times> string) list" where
  "PRICING =
     [(''gpt-4o-mini'', ''0.15'', ''0.60''),
      (''gpt-4o'', ''2.50'', ''10.00''),
      (''claude-sonnet-4'', ''3.00'', ''15.00''),
      (''claude-3-5-haiku'', ''0.80'', ''4.00''),
      (''text-embedding-3-small'', ''0.02'', ''0.0''),
      (''text-embedding-3-large'', ''0.13'', ''0.0'')]"

text \<open>
  \<open>record_call\<close> on the tracker's \<open>self.calls\<close>: the cost and the new list. \<open>now\<close> is
  \<open>datetime.now().isoformat()\<close>. Writing the file (\<open>_save\<close>) changes nothing here,
  also when it fails.
\<close>

definition record_call ::
  "'f float_ops \<Rightarrow> string \<Rightarrow> 'f APICall list \<Rightarrow> string \<Rightarrow> string \<Rightarrow> int \<Rightarrow> int \<Rightarrow>
     'f \<times> 'f APICall list" where
  "record_call ops now self_calls op mdl in_tokens out_tokens =
     (let pricing = (case map_of PRICING mdl of
                       Some p \<Rightarrow> p
                     | None \<Rightarrow> (''0.01'', ''0.01''));
          cost = fadd ops
                   (fmul ops (truediv ops in_tokens 1000000) (lit ops (fst pricing)))
                   (fmul ops (truediv ops out_tokens 1000000) (lit ops (snd pricing)));
          call = \<lparr>timestamp = now, operation = op, model = mdl,
                   input_tokens = in_tokens, output_tokens = out_tokens,
                   cost_usd = cost\<rparr>
      in (cost, self_calls @ [call]))"

text \<open>What one included call adds to the summary (the body of the loop of
  \<open>get_summary\<close> after the date filter).\<close>

definition summary_add :: "'f float_ops \<Rightarrow> 'f CostSummary \<Rightarrow> 'f APICall \<Rightarrow> 'f CostSummary" where
  "summary_add ops summary call =
     summary\<lparr>total_calls := total_calls summary + 1,
             total_input_tokens := total_input_tokens summary + input_tokens call,
             total_output_tokens := total_output_tokens summary + output_tokens call,
             total_cost_usd := fadd ops (total_cost_usd summary) (cost_usd call),
             by_operation := (by_operation summary)(operation call \<mapsto>
               fadd ops (case by_operation summary (operation call) of
                           Some c \<Rightarrow> c
                         | None \<Rightarrow> float_of_int ops 0) (cost_usd call)),
             by_model := (by_model summary)(model call \<mapsto>
               fadd ops (case by_model summary (model call) of
                           Some c \<Rightarrow> c
                         | None \<Rightarrow> float_of_int ops 0) (cost_usd call))\<rparr>"

text \<open>
  The loop of \<open>get_summary\<close>. \<open>fromisoformat\<close> stands for
  \<open>datetime.fromisoformat\<close> (\<open>None\<close> where it raises \<open>ValueError\<close>, which leaves
  \<open>get_summary\<close>: the result \<open>None\<close>); datetimes are integers. A call is skipped
  when \<open>since\<close> is given and \<open>call_time < since\<close>.
\<close>

fun summary_loop ::
  "'f float_ops \<Rightarrow> (string \<Rightarrow> int option) \<Rightarrow> int option \<Rightarrow> 'f APICall list \<Rightarrow>
     'f CostSummary \<Rightarrow> 'f CostSummary option" where
  "summary_loop ops fromisoformat since [] summary = Some summary"
| "summary_loop ops fromisoformat since (call # rest) summary =
     (case since of
        None \<Rightarrow> summary_loop ops fromisoformat since rest (summary_add ops summary call)
      | Some t \<Rightarrow>
          (case fromisoformat (timestamp call) of
             None \<Rightarrow> None
           | Some call_time \<Rightarrow>
               if call_time < t then summary_loop ops fromisoformat since rest summary
               else summary_loop ops fromisoformat since rest (summary_add ops summary call)))"

definition get_summary ::
  "'f float_ops \<Rightarrow> (string \<Rightarrow> int option) \<Rightarrow> 'f APICall list \<Rightarrow> int option \<Rightarrow>
     'f CostSummary option" where
  "get_summary ops fromisoformat self_calls since =
     summary_loop ops fromisoformat since self_calls
       \<lparr>total_calls = 0, total_input_tokens = 0, total_output_tokens = 0,
        total_cost_usd = lit ops ''0.0'', by_operation = Map.empty, by_model = Map.empty\<rparr>"

section \<open>Properties of the retry wrappers\<close>



lemma rate_limit_retryable: "is_retryable ''Rate limit exceeded''"
  by code_simp

















lemma wrapper_async_exit:
  "attempt < max_retries \<Longrightarrow>
   (case exit (wrapper_async func_name func attempt zs) of
      Returned v \<Rightarrow> func (calls (wrapper_async func_name func attempt zs) - 1) = Returns v
    | LLMError site m \<Rightarrow>
        site = InLoop \<and> func_name \<noteq> None \<and>
        func (calls (wrapper_async func_name func attempt zs) - 1) = Raises m
    | AttributeError \<Rightarrow>
        func_name = None \<and>
        (\<exists>e. func (calls (wrapper_async func_name func attempt zs) - 1) = Raises e))"
proof (induction func_name func attempt zs rule: wrapper_async.induct)
  case (1 func_name func attempt zs)
  note step = wrapper_async.simps [of func_name func attempt zs]
  show ?case
  proof (cases "func attempt")
    case (Returns v)
    with "1.prems" show ?thesis by (simp add: step)
  next
    case (Raises e)
    show ?thesis
    proof (cases func_name)
      case None
      have "wrapper_async func_name func attempt zs =
          \<lparr>exit = AttributeError, calls = attempt + 1, slept = zs\<rparr>"
        using Raises "1.prems" unfolding None
        by (simp add: wrapper_async.simps [of None func attempt zs])
      with Raises None show ?thesis by simp
    next
      case (Some name)
      show ?thesis
      proof (cases "is_retryable e \<and> attempt < max_retries - 1")
        case True
        then have next_ok: "attempt + 1 < max_retries" by (simp add: max_retries_def)
        have same: "wrapper_async func_name func attempt zs =
            wrapper_async func_name func (attempt + 1) (zs @ [retry_delay * 2 ^ attempt])"
          using "1.prems" Raises True unfolding Some
          by (simp add: wrapper_async.simps [of "Some name" func attempt zs])
        show ?thesis
          unfolding same using "1.IH" [OF "1.prems" Raises True Some next_ok] .
      next
        case False
        with Raises "1.prems" show ?thesis unfolding Some
          by (auto simp: wrapper_async.simps [of "Some name" func attempt zs])
      qed
    qed
  qed
qed




section \<open>Properties of the articles table\<close>

lemma count_by_key:
  "distinct (map f xs) \<Longrightarrow>
   length (filter (\<lambda>r. f r = v) xs) = (if v \<in> f ` set xs then 1 else 0)"
  by (induction xs) auto

lemma add_article_duplicate:
  "list_ex (\<lambda>r. row_link r = link) (articles conn) \<Longrightarrow>
   add_article conn feed_id title content link pub_date = (None, conn)"
  by (simp add: add_article_def)

lemma add_article_link_stored:
  "list_ex (\<lambda>r. row_link r = link)
     (articles (snd (add_article conn feed_id title content link pub_date)))"
  by (simp add: add_article_def Let_def list_ex_iff)

lemma add_article_links_distinct:
  "distinct (map row_link (articles conn)) \<Longrightarrow>
   distinct (map row_link (articles (snd (add_article conn feed_id title content link pub_date))))"
  by (auto simp: add_article_def Let_def list_ex_iff)

lemma add_article_fresh:
  "\<not> list_ex (\<lambda>r. row_link r = link) (articles conn) \<Longrightarrow>
   fst (add_article conn feed_id title content link pub_date) \<noteq> None \<and>
   length (articles (snd (add_article conn feed_id title content link pub_date))) =
     length (articles conn) + 1"
  by (simp add: add_article_def Let_def)

text \<open>
  Claim C5. \<open>add_article\<close> is a dedup gate keyed on \<open>link\<close>: when a row with the
  link exists anywhere in the table the call returns \<open>None\<close> and leaves the database
  as it was; so after any call with a link, a second call with that link (whatever its
  other arguments) returns \<open>None\<close> and changes nothing, and in a table whose links are
  distinct (the \<open>UNIQUE\<close> constraint) exactly one row holds the link afterwards.
\<close>

theorem add_article_dedup:
  "(list_ex (\<lambda>r. row_link r = link) (articles conn) \<longrightarrow>
      add_article conn feed_id title content link pub_date = (None, conn)) \<and>
   (let conn1 = snd (add_article conn feed_id title content link pub_date)
    in add_article conn1 feed_id' title' content' link pub_date' = (None, conn1) \<and>
       (distinct (map row_link (articles conn)) \<longrightarrow>
          distinct (map row_link (articles conn1)) \<and>
          length (filter (\<lambda>r. row_link r = link) (articles conn1)) = 1))"
proof -
  let ?conn1 = "snd (add_article conn feed_id title content link pub_date)"
  have stored: "list_ex (\<lambda>r. row_link r = link) (articles ?conn1)"
    by (rule add_article_link_stored)
  have second: "add_article ?conn1 feed_id' title' content' link pub_date' = (None, ?conn1)"
    using stored by (rule add_article_duplicate)
  have one: "length (filter (\<lambda>r. row_link r = link) (articles ?conn1)) = 1"
    if d: "distinct (map row_link (articles conn))"
  proof -
    have "distinct (map row_link (articles ?conn1))"
      using d by (rule add_article_links_distinct)
    moreover have "link \<in> row_link ` set (articles ?conn1)"
      using stored by (auto simp: list_ex_iff)
    ultimately show ?thesis by (simp add: count_by_key)
  qed
  show ?thesis
    using second one add_article_duplicate [of link conn feed_id title content pub_date]
      add_article_links_distinct [of conn feed_id title content link pub_date]
    by (simp add: Let_def)
qed

theorem add_article_dedup_witness:
  "distinct (map row_link (articles init_db)) \<and>
   fst (add_article init_db 1 ''Article 1'' (Some ''Content'') ''https://example.com/1'' None)
     = Some 1 \<and>
   add_article
     (snd (add_article init_db 1 ''Article 1'' (Some ''Content'') ''https://example.com/1'' None))
     1 ''Article 2'' (Some ''Content'') ''https://example.com/1'' None =
     (None,
      snd (add_article init_db 1 ''Article 1'' (Some ''Content'') ''https://example.com/1'' None)) \<and>
   length (filter (\<lambda>r. row_link r = ''https://example.com/1'')
     (articles (snd (add_article init_db 1 ''Article 1'' (Some ''Content'')
        ''https://example.com/1'' None)))) = 1"
proof -
  have d: "distinct (map row_link (articles init_db))" by (simp add: init_db_def)
  have f: "fst (add_article init_db 1 ''Article 1'' (Some ''Content'')
      ''https://example.com/1'' None) = Some 1"
    by (simp add: init_db_def add_article_def)
  from add_article_dedup [of "''https://example.com/1''" init_db 1 "''Article 1''"
      "Some ''Content''" None 1 "''Article 2''" "Some ''Content''" None] d f
  show ?thesis by (simp add: Let_def)
qed

lemma null_not_null_partition:
  "length (filter (\<lambda>r. f r = None) xs) + length (filter (\<lambda>r. f r \<noteq> None) xs) = length xs"
  by (induction xs) auto

lemma pending_plus_ingested:
  "get_pending_count conn + get_ingested_count conn = length (articles conn)"
  unfolding get_pending_count_def get_ingested_count_def
  by (rule null_not_null_partition)

lemma update_twice:
  "update_article_lightrag_id (update_article_lightrag_id conn i v1) i v2 =
   update_article_lightrag_id conn i v2"
  by (simp add: update_article_lightrag_id_def o_def cong: map_cong)

lemma update_rows_pending:
  "filter (\<lambda>r. row_lightrag_id r = None)
     (map (\<lambda>r. if row_id r = i then r\<lparr>row_lightrag_id := Some v\<rparr> else r) xs) =
   filter (\<lambda>r. row_lightrag_id r = None \<and> row_id r \<noteq> i) xs"
  by (induction xs) auto

lemma update_pending:
  "filter (\<lambda>r. row_lightrag_id r = None) (articles (update_article_lightrag_id conn i v)) =
   filter (\<lambda>r. row_lightrag_id r = None \<and> row_id r \<noteq> i) (articles conn)"
  by (simp add: update_article_lightrag_id_def update_rows_pending)

lemma update_ids:
  "map row_id (articles (update_article_lightrag_id conn i v)) = map row_id (articles conn) \<and>
   map row_link (articles (update_article_lightrag_id conn i v)) = map row_link (articles conn)"
  by (simp add: update_article_lightrag_id_def o_def cong: map_cong)


text \<open>
  Claim C9. In every database state the pending count plus the ingested count is the
  number of stored articles: \<open>get_pending_count\<close> counts the rows whose
  \<open>lightrag_id\<close> is \<open>NULL\<close>, \<open>get_ingested_count\<close> those where it is not, the
  two sets of rows are disjoint and cover the table, and this holds again after
  \<open>add_article\<close>, \<open>update_article_lightrag_id\<close> and \<open>delete_feed\<close>.
\<close>

theorem pending_ingested_partition:
  "get_pending_count conn + get_ingested_count conn = length (articles conn) \<and>
   get_pending_count conn = length (filter (\<lambda>r. row_lightrag_id r = None) (articles conn)) \<and>
   get_ingested_count conn = length (filter (\<lambda>r. row_lightrag_id r \<noteq> None) (articles conn)) \<and>
   set (filter (\<lambda>r. row_lightrag_id r = None) (articles conn)) \<inter>
     set (filter (\<lambda>r. row_lightrag_id r \<noteq> None) (articles conn)) = {} \<and>
   set (filter (\<lambda>r. row_lightrag_id r = None) (articles conn)) \<union>
     set (filter (\<lambda>r. row_lightrag_id r \<noteq> None) (articles conn)) = set (articles conn) \<and>
   get_pending_count (snd (add_article conn feed_id title content link pub_date)) +
     get_ingested_count (snd (add_article conn feed_id title content link pub_date)) =
     length (articles (snd (add_article conn feed_id title content link pub_date))) \<and>
   get_pending_count (update_article_lightrag_id conn i v) +
     get_ingested_count (update_article_lightrag_id conn i v) =
     length (articles (update_article_lightrag_id conn i v)) \<and>
   get_pending_count (delete_feed conn fid) + get_ingested_count (delete_feed conn fid) =
     length (articles (delete_feed conn fid))"
proof -
  have sets: "set (filter (\<lambda>r. row_lightrag_id r = None) (articles conn)) \<inter>
     set (filter (\<lambda>r. row_lightrag_id r \<noteq> None) (articles conn)) = {}"
    "set (filter (\<lambda>r. row_lightrag_id r = None) (articles conn)) \<union>
     set (filter (\<lambda>r. row_lightrag_id r \<noteq> None) (articles conn)) = set (articles conn)"
    by auto
  show ?thesis
    using sets by (simp add: pending_plus_ingested)
       (simp add: get_pending_count_def get_ingested_count_def)
qed

text \<open>The spec's example: three articles, none submitted, give a pending count of 3;
  after one is marked the pending count is 2 and the ingested count 1.\<close>

lemma pending_count_example:
  "get_pending_count
     (snd (add_article (snd (add_article (snd (add_article init_db 1 ''A'' None ''l1'' None))
        1 ''B'' None ''l2'' None)) 1 ''C'' None ''l3'' None)) = 3 \<and>
   get_pending_count (update_article_lightrag_id
     (snd (add_article (snd (add_article (snd (add_article init_db 1 ''A'' None ''l1'' None))
        1 ''B'' None ''l2'' None)) 1 ''C'' None ''l3'' None)) 1 ''test-id'') = 2 \<and>
   get_ingested_count (update_article_lightrag_id
     (snd (add_article (snd (add_article (snd (add_article init_db 1 ''A'' None ''l1'' None))
        1 ''B'' None ''l2'' None)) 1 ''C'' None ''l3'' None)) 1 ''test-id'') = 1"
  by (simp add: init_db_def add_article_def update_article_lightrag_id_def
      get_pending_count_def get_ingested_count_def)

lemma update_identifiers:
  "map row_lightrag_id (articles (update_article_lightrag_id conn i v)) =
     map (\<lambda>r. if row_id r = i then Some v else row_lightrag_id r) (articles conn)"
  by (simp add: update_article_lightrag_id_def o_def cong: map_cong)

lemma update_other_columns:
  "map (\<lambda>r. r\<lparr>row_lightrag_id := None\<rparr>) (articles (update_article_lightrag_id conn i v)) =
     map (\<lambda>r. r\<lparr>row_lightrag_id := None\<rparr>) (articles conn) \<and>
   article_seq (update_article_lightrag_id conn i v) = article_seq conn"
  by (simp add: update_article_lightrag_id_def o_def cong: map_cong)

lemma add_article_keeps_rows:
  "take (length (articles conn))
     (articles (snd (add_article conn feed_id title content link pub_date))) = articles conn \<and>
   filter (\<lambda>r. row_lightrag_id r \<noteq> None)
     (articles (snd (add_article conn feed_id title content link pub_date))) =
   filter (\<lambda>r. row_lightrag_id r \<noteq> None) (articles conn)"
  by (simp add: add_article_def Let_def)

lemma delete_feed_keeps_rows:
  "set (articles (delete_feed conn fid)) \<subseteq> set (articles conn) \<and>
   filter (\<lambda>r. row_lightrag_id r = None) (articles (delete_feed conn fid)) =
   filter (\<lambda>r. row_lightrag_id r = None \<and> row_feed_id r \<noteq> fid) (articles conn)"
  by (auto simp: delete_feed_def intro: filter_cong)

text \<open>
  Claim C1, as the code has it. \<open>update_article_lightrag_id\<close> writes the given
  identifier into the row with the given id whether or not one was stored before, and
  changes nothing else: afterwards that row holds the given identifier, every other row
  holds the identifier it had, and all other columns are as they were. So a second call
  with another value replaces the first (last write wins, nothing is flagged). No
  operation on the table sets an identifier back to \<open>NULL\<close>: after
  \<open>update_article_lightrag_id\<close> the pending rows are the rows that were pending
  before, less the row written; \<open>add_article\<close> leaves every row it found as it was
  (it adds at most one pending row); \<open>delete_feed\<close> only removes rows, and the rows
  it keeps are as they were.
\<close>

theorem update_article_lightrag_id_overwrites:
  "map row_lightrag_id (articles (update_article_lightrag_id conn i v)) =
     map (\<lambda>r. if row_id r = i then Some v else row_lightrag_id r) (articles conn) \<and>
   map (\<lambda>r. r\<lparr>row_lightrag_id := None\<rparr>) (articles (update_article_lightrag_id conn i v)) =
     map (\<lambda>r. r\<lparr>row_lightrag_id := None\<rparr>) (articles conn) \<and>
   article_seq (update_article_lightrag_id conn i v) = article_seq conn \<and>
   update_article_lightrag_id (update_article_lightrag_id conn i v1) i v2 =
     update_article_lightrag_id conn i v2 \<and>
   filter (\<lambda>r. row_lightrag_id r = None) (articles (update_article_lightrag_id conn i v)) =
     filter (\<lambda>r. row_lightrag_id r = None \<and> row_id r \<noteq> i) (articles conn) \<and>
   take (length (articles conn))
     (articles (snd (add_article conn feed_id title content link pub_date))) = articles conn \<and>
   filter (\<lambda>r. row_lightrag_id r \<noteq> None)
     (articles (snd (add_article conn feed_id title content link pub_date))) =
     filter (\<lambda>r. row_lightrag_id r \<noteq> None) (articles conn) \<and>
   set (articles (delete_feed conn fid)) \<subseteq> set (articles conn) \<and>
   filter (\<lambda>r. row_lightrag_id r = None) (articles (delete_feed conn fid)) =
     filter (\<lambda>r. row_lightrag_id r = None \<and> row_feed_id r \<noteq> fid) (articles conn)"
  using update_identifiers [of conn i v] update_other_columns [of conn i v]
    update_twice [of conn i v1 v2] update_pending [of conn i v]
    add_article_keeps_rows [of conn feed_id title content link pub_date]
    delete_feed_keeps_rows [of conn fid]
  by simp

theorem update_article_lightrag_id_overwrites_witness:
  "map row_lightrag_id (articles (update_article_lightrag_id
     \<lparr>articles =
        [\<lparr>row_id = 1, row_feed_id = 1, row_title = ''A'', row_content = None,
          row_link = ''l1'', row_pub_date = None, row_lightrag_id = Some ''first''\<rparr>,
         \<lparr>row_id = 2, row_feed_id = 1, row_title = ''B'', row_content = None,
          row_link = ''l2'', row_pub_date = None, row_lightrag_id = None\<rparr>,
         \<lparr>row_id = 3, row_feed_id = 2, row_title = ''C'', row_content = None,
          row_link = ''l3'', row_pub_date = None, row_lightrag_id = Some ''third''\<rparr>],
      article_seq = 3\<rparr> 2 ''second'')) = [Some ''first'', Some ''second'', Some ''third'']"
  using update_article_lightrag_id_overwrites
    [where conn = "\<lparr>articles =
        [\<lparr>row_id = 1, row_feed_id = 1, row_title = ''A'', row_content = None,
          row_link = ''l1'', row_pub_date = None, row_lightrag_id = Some ''first''\<rparr>,
         \<lparr>row_id = 2, row_feed_id = 1, row_title = ''B'', row_content = None,
          row_link = ''l2'', row_pub_date = None, row_lightrag_id = None\<rparr>,
         \<lparr>row_id = 3, row_feed_id = 2, row_title = ''C'', row_content = None,
          row_link = ''l3'', row_pub_date = None, row_lightrag_id = Some ''third''\<rparr>],
      article_seq = 3\<rparr>" and i = 2 and v = "''second''", THEN conjunct1]
  by simp

text \<open>
  Claim C1 as stated fails: on an article whose identifier is already \<open>first\<close>, a
  second call with \<open>second\<close> changes the stored identifier from one non-null value to
  another.
\<close>

theorem update_article_lightrag_id_counterexample:
  "map row_lightrag_id (articles (update_article_lightrag_id
     (snd (add_article init_db 1 ''Article'' None ''https://example.com/1'' None))
     1 ''first'')) = [Some ''first''] \<and>
   map row_lightrag_id (articles (update_article_lightrag_id
     (update_article_lightrag_id
        (snd (add_article init_db 1 ''Article'' None ''https://example.com/1'' None))
        1 ''first'')
     1 ''second'')) = [Some ''second'']"
  by (simp add: init_db_def add_article_def update_article_lightrag_id_def)

section \<open>Properties of ingestion\<close>

lemma ingest_article_async_calls:
  "snd (ingest_article_async h rag n i t c l) = n + 1"
  by (simp add: ingest_article_async_def Let_def split: outcome.splits)

lemma ingest_article_async_result:
  "fst (ingest_article_async h rag n i t c l) =
     (case rag n (doc_text t l c) [h l] [l] of
        Returns u \<Rightarrow>
          \<lparr>res_article_id = i, res_title = t, res_success = True,
            res_lightrag_id = Some (h l), res_error = None\<rparr>
      | Raises e \<Rightarrow>
          \<lparr>res_article_id = i, res_title = t, res_success = False,
            res_lightrag_id = None, res_error = Some e\<rparr>)"
  by (simp add: ingest_article_async_def Let_def split: outcome.splits)

lemma ingest_loop_Cons:
  "ingest_loop h rag (a # rest) n conn =
     (let res = fst (ingest_article_async h rag n (row_id a) (row_title a)
                  (Some (case row_content a of None \<Rightarrow> [] | Some c \<Rightarrow> c)) (row_link a));
          conn1 = (if res_success res \<and> h (row_link a) \<noteq> []
                   then update_article_lightrag_id conn (row_id a) (h (row_link a)) else conn);
          tl = ingest_loop h rag rest (n + 1) conn1
      in (res # fst tl, fst (snd tl), snd (snd tl)))"
  by (simp add: ingest_article_async_def Let_def split: outcome.splits prod.splits)

lemma ingest_loop_length:
  "length (fst (ingest_loop h rag arts n conn)) = length arts"
  by (induction arts arbitrary: n conn) (simp_all add: ingest_loop_Cons Let_def del: ingest_loop.simps(2))

lemma ingest_loop_calls:
  "fst (snd (ingest_loop h rag arts n conn)) = n + length arts"
  by (induction arts arbitrary: n conn) (simp_all add: ingest_loop_Cons Let_def del: ingest_loop.simps(2))

lemma ingest_loop_nth:
  "j < length arts \<Longrightarrow>
   fst (ingest_loop h rag arts n conn) ! j =
     fst (ingest_article_async h rag (n + j) (row_id (arts ! j)) (row_title (arts ! j))
       (Some (case row_content (arts ! j) of None \<Rightarrow> [] | Some c \<Rightarrow> c)) (row_link (arts ! j)))"
proof (induction arts arbitrary: n conn j)
  case Nil
  then show ?case by simp
next
  case (Cons a rest)
  show ?case
  proof (cases j)
    case 0
    then show ?thesis by (simp add: ingest_loop_Cons Let_def del: ingest_loop.simps(2))
  next
    case (Suc j')
    with Cons.prems have "j' < length rest" by simp
    from Cons.IH [OF this] Suc show ?thesis
      by (simp add: ingest_loop_Cons Let_def del: ingest_loop.simps(2))
  qed
qed


lemma ingest_loop_seq:
  "article_seq (snd (snd (ingest_loop h rag arts n conn))) = article_seq conn"
  by (induction arts arbitrary: n conn)
     (simp_all add: ingest_loop_Cons Let_def update_article_lightrag_id_def
        del: ingest_loop.simps(2))

lemma ingest_loop_db:
  assumes hne: "\<And>l. h l \<noteq> []"
  shows "(\<forall>a\<in>set arts. \<forall>r\<in>set (articles conn). row_id r = row_id a \<longrightarrow> row_link r = row_link a) \<Longrightarrow>
    articles (snd (snd (ingest_loop h rag arts n conn))) =
      map (\<lambda>r. if row_id r \<in> res_article_id `
                    {x \<in> set (fst (ingest_loop h rag arts n conn)). res_success x}
                then r\<lparr>row_lightrag_id := Some (h (row_link r))\<rparr> else r)
        (articles conn)"
proof (induction arts arbitrary: n conn)
  case Nil
  show ?case by simp
next
  case (Cons a rest)
  define res where "res = fst (ingest_article_async h rag n (row_id a) (row_title a)
                  (Some (case row_content a of None \<Rightarrow> [] | Some c \<Rightarrow> c)) (row_link a))"
  define conn1 where "conn1 = (if res_success res
                   then update_article_lightrag_id conn (row_id a) (h (row_link a)) else conn)"
  have unfold: "ingest_loop h rag (a # rest) n conn =
      (res # fst (ingest_loop h rag rest (n + 1) conn1),
       fst (snd (ingest_loop h rag rest (n + 1) conn1)),
       snd (snd (ingest_loop h rag rest (n + 1) conn1)))"
    by (simp add: ingest_loop_Cons Let_def res_def conn1_def hne del: ingest_loop.simps(2))
  have res_id: "res_article_id res = row_id a"
    by (simp add: res_def ingest_article_async_result split: outcome.splits)
  have link_a: "row_link r = row_link a" if "r \<in> set (articles conn)" "row_id r = row_id a" for r
    using Cons.prems that by simp
  have conn1_rows: "articles conn1 =
      map (\<lambda>r. if res_success res \<and> row_id r = row_id a
                then r\<lparr>row_lightrag_id := Some (h (row_link r))\<rparr> else r) (articles conn)"
    using link_a by (auto simp: conn1_def update_article_lightrag_id_def)
  have cons1: "\<forall>b\<in>set rest. \<forall>r\<in>set (articles conn1). row_id r = row_id b \<longrightarrow> row_link r = row_link b"
    using Cons.prems by (auto simp: conn1_rows)
  note IH = Cons.IH [OF cons1, of "Suc n"]
  have in_S: "row_id a \<in> res_article_id ` {x. (x = res \<or> x \<in> set R) \<and> res_success x}"
    if "res_success res" for R
    using res_id that by force
  show ?case
    unfolding unfold using res_id
    by (simp add: IH conn1_rows) (auto simp: in_S)
qed


lemma select_pending_rows:
  "r \<in> set (select_pending conn limit) \<Longrightarrow>
   r \<in> set (articles conn) \<and> row_lightrag_id r = None"
  by (auto simp: select_pending_def Let_def split: option.splits if_splits dest: in_set_takeD)

lemma same_id_same_row:
  "distinct (map row_id xs) \<Longrightarrow> a \<in> set xs \<Longrightarrow> r \<in> set xs \<Longrightarrow> row_id r = row_id a \<Longrightarrow> r = a"
  by (auto simp: distinct_map inj_on_def)

text \<open>
  Claim C6. In a run of \<open>ingest_pending_articles_async\<close> stopped after \<open>k\<close>
  results (any \<open>k\<close>), on a table with distinct ids and a hash that is never empty:
  every selected article among the first \<open>k\<close> gets one result and one engine call,
  failed or not (a failure does not end the batch); the article was pending; its result
  is a success exactly when its engine call returned; and the database then differs
  from the initial one exactly in that the articles whose submission succeeded carry
  their document id: a failed article is not marked, and the writes are there after
  each article, not at the end.
\<close>

theorem ingest_pending_marks_successes:
  assumes ids: "distinct (map row_id (articles conn))"
    and nonempty: "\<forall>l. md5_hexdigest l \<noteq> []"
  shows
    "length (fst (ingest_pending_articles_async md5_hexdigest rag n conn limit k)) =
       length (take k (select_pending conn limit)) \<and>
     fst (snd (ingest_pending_articles_async md5_hexdigest rag n conn limit k)) =
       n + length (take k (select_pending conn limit)) \<and>
     (\<forall>j < length (take k (select_pending conn limit)).
        row_lightrag_id (select_pending conn limit ! j) = None \<and>
        res_article_id (fst (ingest_pending_articles_async md5_hexdigest rag n conn limit k) ! j) =
          row_id (select_pending conn limit ! j) \<and>
        res_success (fst (ingest_pending_articles_async md5_hexdigest rag n conn limit k) ! j) =
          (rag (n + j)
             (doc_text (row_title (select_pending conn limit ! j))
                (row_link (select_pending conn limit ! j))
                (Some (case row_content (select_pending conn limit ! j) of
                         None \<Rightarrow> [] | Some c \<Rightarrow> c)))
             [md5_hexdigest (row_link (select_pending conn limit ! j))]
             [row_link (select_pending conn limit ! j)] = Returns ())) \<and>
     articles (snd (snd (ingest_pending_articles_async md5_hexdigest rag n conn limit k))) =
       map (\<lambda>r. if row_id r \<in> res_article_id `
                     {x \<in> set (fst (ingest_pending_articles_async md5_hexdigest rag n conn limit k)).
                        res_success x}
                 then r\<lparr>row_lightrag_id := Some (md5_hexdigest (row_link r))\<rparr> else r)
         (articles conn)"
proof -
  let ?rows = "take k (select_pending conn limit)"
  have rows: "a \<in> set (articles conn) \<and> row_lightrag_id a = None" if "a \<in> set ?rows" for a
    using that by (auto dest: in_set_takeD select_pending_rows)
  have cons: "\<forall>a\<in>set ?rows. \<forall>r\<in>set (articles conn).
      row_id r = row_id a \<longrightarrow> row_link r = row_link a"
    using rows same_id_same_row [OF ids] by blast
  have ne: "md5_hexdigest l \<noteq> []" for l using nonempty by simp
  have each: "row_lightrag_id (select_pending conn limit ! j) = None \<and>
        res_article_id (fst (ingest_loop md5_hexdigest rag ?rows n conn) ! j) =
          row_id (select_pending conn limit ! j) \<and>
        res_success (fst (ingest_loop md5_hexdigest rag ?rows n conn) ! j) =
          (rag (n + j)
             (doc_text (row_title (select_pending conn limit ! j))
                (row_link (select_pending conn limit ! j))
                (Some (case row_content (select_pending conn limit ! j) of
                         None \<Rightarrow> [] | Some c \<Rightarrow> c)))
             [md5_hexdigest (row_link (select_pending conn limit ! j))]
             [row_link (select_pending conn limit ! j)] = Returns ())"
    if j: "j < length ?rows" for j
  proof -
    have nth: "?rows ! j = select_pending conn limit ! j" using j by simp
    have "?rows ! j \<in> set ?rows" using j by (rule nth_mem)
    then have "row_lightrag_id (?rows ! j) = None" using rows by blast
    then show ?thesis
      using ingest_loop_nth [OF j, of md5_hexdigest rag n conn]
      by (simp add: nth ingest_article_async_result split: outcome.splits)
  qed
  show ?thesis
    unfolding ingest_pending_articles_async_def
    using each ingest_loop_db [of md5_hexdigest ?rows conn rag n, OF ne cons]
    by (simp add: ingest_loop_length ingest_loop_calls)
qed

lemma example_select:
  "select_pending
     \<lparr>articles =
        [\<lparr>row_id = 1, row_feed_id = 1, row_title = ''A'', row_content = Some ''a'',
          row_link = ''l1'', row_pub_date = Some 30, row_lightrag_id = None\<rparr>,
         \<lparr>row_id = 2, row_feed_id = 1, row_title = ''B'', row_content = None,
          row_link = ''l2'', row_pub_date = Some 20, row_lightrag_id = None\<rparr>,
         \<lparr>row_id = 3, row_feed_id = 1, row_title = ''C'', row_content = Some ''c'',
          row_link = ''l3'', row_pub_date = None, row_lightrag_id = None\<rparr>],
      article_seq = 3\<rparr> None =
     [\<lparr>row_id = 1, row_feed_id = 1, row_title = ''A'', row_content = Some ''a'',
          row_link = ''l1'', row_pub_date = Some 30, row_lightrag_id = None\<rparr>,
         \<lparr>row_id = 2, row_feed_id = 1, row_title = ''B'', row_content = None,
          row_link = ''l2'', row_pub_date = Some 20, row_lightrag_id = None\<rparr>,
         \<lparr>row_id = 3, row_feed_id = 1, row_title = ''C'', row_content = Some ''c'',
          row_link = ''l3'', row_pub_date = None, row_lightrag_id = None\<rparr>]"
  by (simp add: select_pending_def)

theorem ingest_pending_marks_successes_witness:
  "distinct (map row_id (articles
     \<lparr>articles =
        [\<lparr>row_id = 1, row_feed_id = 1, row_title = ''A'', row_content = Some ''a'',
          row_link = ''l1'', row_pub_date = Some 30, row_lightrag_id = None\<rparr>,
         \<lparr>row_id = 2, row_feed_id = 1, row_title = ''B'', row_content = None,
          row_link = ''l2'', row_pub_date = Some 20, row_lightrag_id = None\<rparr>,
         \<lparr>row_id = 3, row_feed_id = 1, row_title = ''C'', row_content = Some ''c'',
          row_link = ''l3'', row_pub_date = None, row_lightrag_id = None\<rparr>],
      article_seq = 3\<rparr>)) \<and>
   (\<forall>l. ''id-'' @ l \<noteq> []) \<and>
   map row_lightrag_id (articles (snd (snd (ingest_pending_articles_async (\<lambda>l. ''id-'' @ l)
     (\<lambda>n d i p. if n = 1 then Raises ''API Error'' else Returns ()) 0
     \<lparr>articles =
        [\<lparr>row_id = 1, row_feed_id = 1, row_title = ''A'', row_content = Some ''a'',
          row_link = ''l1'', row_pub_date = Some 30, row_lightrag_id = None\<rparr>,
         \<lparr>row_id = 2, row_feed_id = 1, row_title = ''B'', row_content = None,
          row_link = ''l2'', row_pub_date = Some 20, row_lightrag_id = None\<rparr>,
         \<lparr>row_id = 3, row_feed_id = 1, row_title = ''C'', row_content = Some ''c'',
          row_link = ''l3'', row_pub_date = None, row_lightrag_id = None\<rparr>],
      article_seq = 3\<rparr> None 3)))) = [Some ''id-l1'', None, Some ''id-l3''] \<and>
   map res_success (fst (ingest_pending_articles_async (\<lambda>l. ''id-'' @ l)
     (\<lambda>n d i p. if n = 1 then Raises ''API Error'' else Returns ()) 0
     \<lparr>articles =
        [\<lparr>row_id = 1, row_feed_id = 1, row_title = ''A'', row_content = Some ''a'',
          row_link = ''l1'', row_pub_date = Some 30, row_lightrag_id = None\<rparr>,
         \<lparr>row_id = 2, row_feed_id = 1, row_title = ''B'', row_content = None,
          row_link = ''l2'', row_pub_date = Some 20, row_lightrag_id = None\<rparr>,
         \<lparr>row_id = 3, row_feed_id = 1, row_title = ''C'', row_content = Some ''c'',
          row_link = ''l3'', row_pub_date = None, row_lightrag_id = None\<rparr>],
      article_seq = 3\<rparr> None 3)) = [True, False, True]"
proof -
  define conn where "conn = \<lparr>articles =
        [\<lparr>row_id = 1, row_feed_id = 1, row_title = ''A'', row_content = Some ''a'',
          row_link = ''l1'', row_pub_date = Some 30, row_lightrag_id = None\<rparr>,
         \<lparr>row_id = 2, row_feed_id = 1, row_title = ''B'', row_content = None,
          row_link = ''l2'', row_pub_date = Some 20, row_lightrag_id = None\<rparr>,
         \<lparr>row_id = 3, row_feed_id = 1, row_title = ''C'', row_content = Some ''c'',
          row_link = ''l3'', row_pub_date = None, row_lightrag_id = None\<rparr>],
      article_seq = 3::int\<rparr>"
  define rag :: engine where "rag = (\<lambda>n d i p.
      if n = 1 then Raises ''API Error'' else Returns ())"
  define h :: "string \<Rightarrow> string" where "h = (\<lambda>l. ''id-'' @ l)"
  have d: "distinct (map row_id (articles conn))" by (simp add: conn_def)
  have ne: "\<forall>l. h l \<noteq> []" by (simp add: h_def)
  have run: "fst (ingest_pending_articles_async h rag 0 conn None 3) =
      [\<lparr>res_article_id = 1, res_title = ''A'', res_success = True,
         res_lightrag_id = Some ''id-l1'', res_error = None\<rparr>,
       \<lparr>res_article_id = 2, res_title = ''B'', res_success = False,
         res_lightrag_id = None, res_error = Some ''API Error''\<rparr>,
       \<lparr>res_article_id = 3, res_title = ''C'', res_success = True,
         res_lightrag_id = Some ''id-l3'', res_error = None\<rparr>]"
    by (simp add: ingest_pending_articles_async_def conn_def rag_def h_def example_select
        ingest_article_async_def Let_def)
  have S: "res_article_id `
      {x \<in> set (fst (ingest_pending_articles_async h rag 0 conn None 3)). res_success x} =
      {1, 3}"
    unfolding run by (force simp: image_iff)
  have eq: "articles (snd (snd (ingest_pending_articles_async h rag 0 conn None 3))) =
       map (\<lambda>r. if row_id r \<in> {1, 3}
                 then r\<lparr>row_lightrag_id := Some (h (row_link r))\<rparr> else r)
         (articles conn)"
    using ingest_pending_marks_successes [of conn h rag 0 None 3, OF d ne]
    unfolding S by blast
  have marks: "map row_lightrag_id
      (articles (snd (snd (ingest_pending_articles_async h rag 0 conn None 3)))) =
      [Some ''id-l1'', None, Some ''id-l3'']"
    unfolding eq by (simp add: conn_def h_def)
  have "distinct (map row_id (articles conn)) \<and> (\<forall>l. h l \<noteq> []) \<and>
    map row_lightrag_id
      (articles (snd (snd (ingest_pending_articles_async h rag 0 conn None 3)))) =
      [Some ''id-l1'', None, Some ''id-l3''] \<and>
    map res_success (fst (ingest_pending_articles_async h rag 0 conn None 3)) =
      [True, False, True]"
    using d ne marks by (simp add: run)
  then show ?thesis
    unfolding conn_def rag_def h_def .
qed


text \<open>
  Claim C3, as the code has it. \<open>ingest_article_async\<close> calls the engine's
  \<open>ainsert\<close> exactly once, with no retry wrapper around it: if the call returns,
  the result is a success carrying the document id; if it raises any exception,
  retryable or not, the result is a failure carrying that exception's message and no
  document id. The function has no access to the database.
\<close>

theorem ingest_article_async_single_attempt:
  "snd (ingest_article_async md5_hexdigest rag n article_id title content link) = n + 1 \<and>
   fst (ingest_article_async md5_hexdigest rag n article_id title content link) =
     (case rag n (doc_text title link content) [md5_hexdigest link] [link] of
        Returns u \<Rightarrow>
          \<lparr>res_article_id = article_id, res_title = title, res_success = True,
            res_lightrag_id = Some (md5_hexdigest link), res_error = None\<rparr>
      | Raises e \<Rightarrow>
          \<lparr>res_article_id = article_id, res_title = title, res_success = False,
            res_lightrag_id = None, res_error = Some e\<rparr>)"
  using ingest_article_async_calls [of md5_hexdigest rag n article_id title content link]
    ingest_article_async_result [of md5_hexdigest rag n article_id title content link]
  by simp

text \<open>
  Claim C3 as stated fails: the engine's first call raises a retryable error and its
  second call would return, yet \<open>ingest_article_async\<close> reports the failure after
  that one call.
\<close>

theorem ingest_article_async_counterexample:
  "is_retryable ''Rate limit exceeded'' \<and>
   ingest_article_async (\<lambda>l. ''id-'' @ l)
     (\<lambda>n d i p. if n = 0 then Raises ''Rate limit exceeded'' else Returns ())
     0 1 ''Title'' (Some ''body'') ''https://example.com/1'' =
     (\<lparr>res_article_id = 1, res_title = ''Title'', res_success = False,
       res_lightrag_id = None, res_error = Some ''Rate limit exceeded''\<rparr>, 1)"
  using rate_limit_retryable by (simp add: ingest_article_async_def)

section \<open>Properties of feed fetching\<close>

lemma content_loop_find:
  "content_loop cs = map_option c_value (find content_matches cs)"
  by (induction cs) simp_all

text \<open>
  Claim C8, as the code has it. \<open>extract_content\<close> prefers content over summary over
  description by presence, not by non-emptiness. It returns the \<open>value\<close> of the
  first content item that is typed \<open>text/html\<close> or has a non-empty value, whatever
  that value is (also an empty or a missing one). When the entry has no such item, it
  returns the summary if the key is there (also when empty), else the description if
  the key is there, else \<open>None\<close>. So \<open>None\<close> comes back only when a matching content
  item has no value, or when neither summary nor description is there.
\<close>

theorem extract_content_by_presence:
  "(\<forall>cs c. e_content entry = Some cs \<and> find content_matches cs = Some c \<longrightarrow>
      extract_content entry = c_value c) \<and>
   ((case e_content entry of None \<Rightarrow> True | Some cs \<Rightarrow> find content_matches cs = None) \<longrightarrow>
      extract_content entry =
        (case e_summary entry of Some s \<Rightarrow> Some s | None \<Rightarrow> e_description entry)) \<and>
   (extract_content entry = None \<longrightarrow>
      (\<exists>cs c. e_content entry = Some cs \<and> find content_matches cs = Some c \<and>
         c_value c = None) \<or>
      (e_summary entry = None \<and> e_description entry = None))"
  by (auto simp: extract_content_def content_loop_find split: option.splits)

theorem extract_content_by_presence_witness:
  "find content_matches [\<lparr>c_type = Some ''text/html'', c_value = Some ''<p>Hello</p>''\<rparr>] =
     Some \<lparr>c_type = Some ''text/html'', c_value = Some ''<p>Hello</p>''\<rparr> \<and>
   extract_content
     \<lparr>e_title = None, e_link = None,
      e_content = Some [\<lparr>c_type = Some ''text/html'', c_value = Some ''<p>Hello</p>''\<rparr>],
      e_summary = Some ''Summary text'', e_description = None,
      e_published_parsed = None, e_updated_parsed = None\<rparr> = Some ''<p>Hello</p>'' \<and>
   extract_content
     \<lparr>e_title = None, e_link = None, e_content = None,
      e_summary = Some ''Summary text'', e_description = Some ''Description text'',
      e_published_parsed = None, e_updated_parsed = None\<rparr> = Some ''Summary text''"
proof -
  have m: "content_matches \<lparr>c_type = Some ''text/html'', c_value = Some ''<p>Hello</p>''\<rparr>"
    by (simp add: content_matches_def)
  have f: "find content_matches
      [\<lparr>c_type = Some ''text/html'', c_value = Some ''<p>Hello</p>''\<rparr>] =
     Some \<lparr>c_type = Some ''text/html'', c_value = Some ''<p>Hello</p>''\<rparr>"
    using m by simp
  from extract_content_by_presence
    [of "\<lparr>e_title = None, e_link = None,
      e_content = Some [\<lparr>c_type = Some ''text/html'', c_value = Some ''<p>Hello</p>''\<rparr>],
      e_summary = Some ''Summary text'', e_description = None,
      e_published_parsed = None, e_updated_parsed = None\<rparr>",
     THEN conjunct1, rule_format,
     of "[\<lparr>c_type = Some ''text/html'', c_value = Some ''<p>Hello</p>''\<rparr>]"
        "\<lparr>c_type = Some ''text/html'', c_value = Some ''<p>Hello</p>''\<rparr>"] f
  have a: "extract_content
     \<lparr>e_title = None, e_link = None,
      e_content = Some [\<lparr>c_type = Some ''text/html'', c_value = Some ''<p>Hello</p>''\<rparr>],
      e_summary = Some ''Summary text'', e_description = None,
      e_published_parsed = None, e_updated_parsed = None\<rparr> = Some ''<p>Hello</p>''"
    by simp
  from extract_content_by_presence
    [of "\<lparr>e_title = None, e_link = None, e_content = None,
      e_summary = Some ''Summary text'', e_description = Some ''Description text'',
      e_published_parsed = None, e_updated_parsed = None\<rparr>",
     THEN conjunct2, THEN conjunct1]
  have b: "extract_content
     \<lparr>e_title = None, e_link = None, e_content = None,
      e_summary = Some ''Summary text'', e_description = Some ''Description text'',
      e_published_parsed = None, e_updated_parsed = None\<rparr> = Some ''Summary text''"
    by simp
  from f a b show ?thesis by simp
qed

text \<open>
  Claim C8 as stated fails: a content item typed \<open>text/html\<close> with an empty value
  (or none) wins over a non-empty summary, and an empty summary wins over a non-empty
  description.
\<close>

theorem extract_content_counterexample:
  "extract_content
     \<lparr>e_title = None, e_link = None,
      e_content = Some [\<lparr>c_type = Some ''text/html'', c_value = Some ''''\<rparr>],
      e_summary = Some ''Summary text'', e_description = None,
      e_published_parsed = None, e_updated_parsed = None\<rparr> = Some '''' \<and>
   extract_content
     \<lparr>e_title = None, e_link = None,
      e_content = Some [\<lparr>c_type = Some ''text/html'', c_value = None\<rparr>],
      e_summary = Some ''Summary text'', e_description = None,
      e_published_parsed = None, e_updated_parsed = None\<rparr> = None \<and>
   extract_content
     \<lparr>e_title = None, e_link = None, e_content = None,
      e_summary = Some '''', e_description = Some ''Description text'',
      e_published_parsed = None, e_updated_parsed = None\<rparr> = Some ''''"
  by (simp add: extract_content_def content_matches_def)

lemma fetch_feed_recoverable:
  "bozo feed \<Longrightarrow> bozo_exception feed = Some error_msg \<Longrightarrow> entries feed \<noteq> [] \<Longrightarrow>
   fetch_feed mktime feed_url max_articles (Inr feed) =
     (feed_title feed, articles_of mktime feed_url (slice_to (entries feed) max_articles), None)"
  by (simp add: fetch_feed_def Let_def)

text \<open>
  Claim C2 on the code. A feed whose parse set \<open>bozo\<close> with an exception and still
  gave two entries: \<open>fetch_feed\<close> returns the two articles, and \<open>None\<close> as the
  error, where the claim has a non-null error note.
\<close>

theorem fetch_feed_partial_error_dropped:
  "fetch_feed (\<lambda>t. Some 0) ''https://example.com/feed.xml'' 50
     (Inr \<lparr>bozo = True, bozo_exception = Some ''Parse warning'', feed_title = Some ''Test Feed'',
           entries =
             [\<lparr>e_title = Some ''Article 1'', e_link = Some ''https://example.com/article1'',
               e_content = None, e_summary = Some ''Content 1'', e_description = None,
               e_published_parsed = None, e_updated_parsed = None\<rparr>,
              \<lparr>e_title = Some ''Article 2'', e_link = Some ''https://example.com/article2'',
               e_content = None, e_summary = Some ''Content 2'', e_description = None,
               e_published_parsed = None, e_updated_parsed = None\<rparr>]\<rparr>) =
     (Some ''Test Feed'',
      [\<lparr>art_title = ''Article 1'', art_content = Some ''Content 1'',
        art_link = ''https://example.com/article1'', art_pub_date = None,
        art_feed_url = ''https://example.com/feed.xml''\<rparr>,
       \<lparr>art_title = ''Article 2'', art_content = Some ''Content 2'',
        art_link = ''https://example.com/article2'', art_pub_date = None,
        art_feed_url = ''https://example.com/feed.xml''\<rparr>],
      None)"
  by (simp add: fetch_feed_def Let_def slice_to_def extract_content_def parse_pub_date_def)

section \<open>Properties of the cost tracker\<close>

lemma summary_fold_calls:
  "total_calls (foldl (summary_add ops) acc xs) = total_calls acc + int (length xs)"
  by (induction xs arbitrary: acc) (simp_all add: summary_add_def)

lemma summary_fold_input:
  "total_input_tokens (foldl (summary_add ops) acc xs) =
     total_input_tokens acc + sum_list (map input_tokens xs)"
  by (induction xs arbitrary: acc) (simp_all add: summary_add_def)

lemma summary_fold_output:
  "total_output_tokens (foldl (summary_add ops) acc xs) =
     total_output_tokens acc + sum_list (map output_tokens xs)"
  by (induction xs arbitrary: acc) (simp_all add: summary_add_def)

lemma summary_fold_cost:
  "total_cost_usd (foldl (summary_add ops) acc xs) =
     foldl (fadd ops) (total_cost_usd acc) (map cost_usd xs)"
  by (induction xs arbitrary: acc) (simp_all add: summary_add_def)

lemma summary_loop_fold:
  "summary_loop ops parse since xs acc =
     (if since \<noteq> None \<and> list_ex (\<lambda>c. parse (timestamp c) = None) xs then None
      else Some (foldl (summary_add ops) acc
             (filter (\<lambda>c. case since of
                             None \<Rightarrow> True
                           | Some t \<Rightarrow> (case parse (timestamp c) of
                                         Some call_time \<Rightarrow> t \<le> call_time
                                       | None \<Rightarrow> False)) xs)))"
  by (induction xs arbitrary: acc) (auto split: option.splits)

text \<open>
  Claim C7. \<open>get_summary\<close> adds up the recorded calls. The included calls are all
  calls when \<open>since\<close> is not given, else exactly those whose timestamp is at or after
  \<open>since\<close>; a summary comes back unless \<open>since\<close> is given and a timestamp does not
  parse; in it \<open>total_calls\<close> is the number of included calls, the token totals are
  the sums of their token counts, and \<open>total_cost_usd\<close> is their costs added one
  after the other to \<open>0.0\<close>. After \<open>record_call\<close> with (1000, 500) and then with
  (2000, 1000) the totals are 2 calls, 3000 and 1500 tokens, and the two costs that
  \<open>record_call\<close> returned, added.
\<close>

theorem get_summary_additive:
  "(let included = filter (\<lambda>c. case since of
                             None \<Rightarrow> True
                           | Some t \<Rightarrow> (case fromisoformat (timestamp c) of
                                         Some call_time \<Rightarrow> t \<le> call_time
                                       | None \<Rightarrow> False)) self_calls
    in case get_summary ops fromisoformat self_calls since of
         None \<Rightarrow> since \<noteq> None \<and> list_ex (\<lambda>c. fromisoformat (timestamp c) = None) self_calls
       | Some summary \<Rightarrow>
           \<not> (since \<noteq> None \<and> list_ex (\<lambda>c. fromisoformat (timestamp c) = None) self_calls) \<and>
           total_calls summary = int (length included) \<and>
           total_input_tokens summary = sum_list (map input_tokens included) \<and>
           total_output_tokens summary = sum_list (map output_tokens included) \<and>
           total_cost_usd summary = foldl (fadd ops) (lit ops ''0.0'') (map cost_usd included)) \<and>
   (let first = record_call ops now1 [] op1 mdl 1000 500;
        second = record_call ops now2 (snd first) op2 mdl 2000 1000
    in case get_summary ops fromisoformat (snd second) None of
         None \<Rightarrow> False
       | Some summary \<Rightarrow>
           total_calls summary = 2 \<and>
           total_input_tokens summary = 3000 \<and>
           total_output_tokens summary = 1500 \<and>
           total_cost_usd summary =
             fadd ops (fadd ops (lit ops ''0.0'') (fst first)) (fst second))"
proof -
  have a: "get_summary ops fromisoformat self_calls since =
     (if since \<noteq> None \<and> list_ex (\<lambda>c. fromisoformat (timestamp c) = None) self_calls then None
      else Some (foldl (summary_add ops)
             \<lparr>total_calls = 0, total_input_tokens = 0, total_output_tokens = 0,
              total_cost_usd = lit ops ''0.0'', by_operation = Map.empty, by_model = Map.empty\<rparr>
             (filter (\<lambda>c. case since of
                             None \<Rightarrow> True
                           | Some t \<Rightarrow> (case fromisoformat (timestamp c) of
                                         Some call_time \<Rightarrow> t \<le> call_time
                                       | None \<Rightarrow> False)) self_calls)))" for self_calls since
    unfolding get_summary_def by (rule summary_loop_fold)
  have part1: "(let included = filter (\<lambda>c. case since of
                             None \<Rightarrow> True
                           | Some t \<Rightarrow> (case fromisoformat (timestamp c) of
                                         Some call_time \<Rightarrow> t \<le> call_time
                                       | None \<Rightarrow> False)) self_calls
    in case get_summary ops fromisoformat self_calls since of
         None \<Rightarrow> since \<noteq> None \<and> list_ex (\<lambda>c. fromisoformat (timestamp c) = None) self_calls
       | Some summary \<Rightarrow>
           \<not> (since \<noteq> None \<and> list_ex (\<lambda>c. fromisoformat (timestamp c) = None) self_calls) \<and>
           total_calls summary = int (length included) \<and>
           total_input_tokens summary = sum_list (map input_tokens included) \<and>
           total_output_tokens summary = sum_list (map output_tokens included) \<and>
           total_cost_usd summary = foldl (fadd ops) (lit ops ''0.0'') (map cost_usd included))"
    by (simp add: a Let_def summary_fold_calls summary_fold_input summary_fold_output
        summary_fold_cost)
  have part2: "(let first = record_call ops now1 [] op1 mdl 1000 500;
        second = record_call ops now2 (snd first) op2 mdl 2000 1000
    in case get_summary ops fromisoformat (snd second) None of
         None \<Rightarrow> False
       | Some summary \<Rightarrow>
           total_calls summary = 2 \<and>
           total_input_tokens summary = 3000 \<and>
           total_output_tokens summary = 1500 \<and>
           total_cost_usd summary =
             fadd ops (fadd ops (lit ops ''0.0'') (fst first)) (fst second))"
    by (simp add: a record_call_def Let_def summary_add_def)
  from part1 part2 show ?thesis by blast
qed


theorem get_summary_additive_witness:
  "map_option total_calls
     (get_summary
        \<lparr>lit = (\<lambda>s. 0), float_of_int = (\<lambda>i. i), truediv = (\<lambda>a b. a), fmul = (\<lambda>a b. a),
         fadd = (\<lambda>a b. a + b)\<rparr>
        (\<lambda>s. if s = ''t1'' then Some 10 else if s = ''t2'' then Some 20
              else if s = ''t3'' then Some 30 else None)
        [\<lparr>timestamp = ''t1'', operation = ''embedding'', model = ''gpt-4o'',
          input_tokens = 1000, output_tokens = 500, cost_usd = 7\<rparr>,
         \<lparr>timestamp = ''t2'', operation = ''embedding'', model = ''gpt-4o'',
          input_tokens = 2000, output_tokens = 1000, cost_usd = 11\<rparr>,
         \<lparr>timestamp = ''t3'', operation = ''summarization'', model = ''gpt-4o'',
          input_tokens = 3000, output_tokens = 1500, cost_usd = 13\<rparr>]
        (Some 20)) = Some 2 \<and>
   map_option total_input_tokens
     (get_summary
        \<lparr>lit = (\<lambda>s. 0), float_of_int = (\<lambda>i. i), truediv = (\<lambda>a b. a), fmul = (\<lambda>a b. a),
         fadd = (\<lambda>a b. a + b)\<rparr>
        (\<lambda>s. if s = ''t1'' then Some 10 else if s = ''t2'' then Some 20
              else if s = ''t3'' then Some 30 else None)
        [\<lparr>timestamp = ''t1'', operation = ''embedding'', model = ''gpt-4o'',
          input_tokens = 1000, output_tokens = 500, cost_usd = 7\<rparr>,
         \<lparr>timestamp = ''t2'', operation = ''embedding'', model = ''gpt-4o'',
          input_tokens = 2000, output_tokens = 1000, cost_usd = 11\<rparr>,
         \<lparr>timestamp = ''t3'', operation = ''summarization'', model = ''gpt-4o'',
          input_tokens = 3000, output_tokens = 1500, cost_usd = 13\<rparr>]
        (Some 20)) = Some 5000 \<and>
   map_option total_cost_usd
     (get_summary
        \<lparr>lit = (\<lambda>s. 0), float_of_int = (\<lambda>i. i), truediv = (\<lambda>a b. a), fmul = (\<lambda>a b. a),
         fadd = (\<lambda>a b. a + b)\<rparr>
        (\<lambda>s. if s = ''t1'' then Some 10 else if s = ''t2'' then Some 20
              else if s = ''t3'' then Some 30 else None)
        [\<lparr>timestamp = ''t1'', operation = ''embedding'', model = ''gpt-4o'',
          input_tokens = 1000, output_tokens = 500, cost_usd = 7\<rparr>,
         \<lparr>timestamp = ''t2'', operation = ''embedding'', model = ''gpt-4o'',
          input_tokens = 2000, output_tokens = 1000, cost_usd = 11\<rparr>,
         \<lparr>timestamp = ''t3'', operation = ''summarization'', model = ''gpt-4o'',
          input_tokens = 3000, output_tokens = 1500, cost_usd = 13\<rparr>]
        (Some 20)) = Some (24 :: int)"
proof -
  define ops :: "int float_ops" where
    "ops = \<lparr>lit = (\<lambda>s. 0), float_of_int = (\<lambda>i. i), truediv = (\<lambda>a b. a), fmul = (\<lambda>a b. a),
         fadd = (\<lambda>a b. a + b)\<rparr>"
  define parse :: "string \<Rightarrow> int option" where
    "parse = (\<lambda>s. if s = ''t1'' then Some 10 else if s = ''t2'' then Some 20
              else if s = ''t3'' then Some 30 else None)"
  define cs :: "int APICall list" where
    "cs = [\<lparr>timestamp = ''t1'', operation = ''embedding'', model = ''gpt-4o'',
          input_tokens = 1000, output_tokens = 500, cost_usd = 7\<rparr>,
         \<lparr>timestamp = ''t2'', operation = ''embedding'', model = ''gpt-4o'',
          input_tokens = 2000, output_tokens = 1000, cost_usd = 11\<rparr>,
         \<lparr>timestamp = ''t3'', operation = ''summarization'', model = ''gpt-4o'',
          input_tokens = 3000, output_tokens = 1500, cost_usd = 13\<rparr>]"
  have ok: "\<not> list_ex (\<lambda>c. parse (timestamp c) = None) cs"
    by (simp add: cs_def parse_def)
  have inc: "filter (\<lambda>c. case Some (20::int) of
                             None \<Rightarrow> True
                           | Some t \<Rightarrow> (case parse (timestamp c) of
                                         Some call_time \<Rightarrow> t \<le> call_time
                                       | None \<Rightarrow> False)) cs = tl cs"
    by (simp add: cs_def parse_def)
  note T = get_summary_additive [where since = "Some 20" and fromisoformat = parse
      and self_calls = cs and ops = ops, THEN conjunct1, unfolded Let_def inc]
  have "map_option total_calls (get_summary ops parse cs (Some 20)) = Some 2 \<and>
    map_option total_input_tokens (get_summary ops parse cs (Some 20)) = Some 5000 \<and>
    map_option total_cost_usd (get_summary ops parse cs (Some 20)) = Some 24"
  proof (cases "get_summary ops parse cs (Some 20)")
    case None
    with T ok show ?thesis by simp
  next
    case (Some summary)
    with T show ?thesis by (simp add: cs_def ops_def)
  qed
  then show ?thesis
    unfolding ops_def parse_def cs_def .
qed

end
